theory Spec2Isabelle
  imports Main "HOL-Library.Char_ord" "HOL-Library.List_Lexorder"
begin

section \<open>Values and records of the offline store\<close>

text \<open>
  The offline queue lives in \<^verbatim>\<open>src/lib/offlineStorage.ts\<close> (bundled in
  \<^verbatim>\<open>src/src/lib/xmlParser.ts\<close>, lines 607-840), the sync pass in
  \<^verbatim>\<open>src/src/lib/backgroundSync.ts\<close>, the secondary target in
  \<^verbatim>\<open>src/lib/teableSync.ts\<close> (xmlParser.ts, lines 452-562) and the submit handler in
  \<^verbatim>\<open>src/src/pages/FormCollect.tsx\<close>.

  A payload (\<^verbatim>\<open>data: any\<close>) is a JSON-compatible value.
\<close>

datatype json =
    JNull
  | JBool bool
  | JNum int
  | JStr string
  | JObj "(string \<times> json) list"

text \<open>
  The value of the \<^verbatim>\<open>submissions\<close> object store (\<^verbatim>\<open>OfflineDB\<close>, xmlParser.ts 627-640).
  The field \<^verbatim>\<open>id\<close> is written \<open>id'\<close> and \<^verbatim>\<open>data\<close> is written \<open>data'\<close>;
  \<^verbatim>\<open>createdAt\<close> is \<^verbatim>\<open>Date.now()\<close>, milliseconds as an integer.
\<close>

record submission =
  id' :: string
  formId :: string
  userId :: "string option"
  data' :: json
  createdAt :: int
  synced :: bool
  syncAttempts :: nat
  lastSyncError :: "string option"

text \<open>The value of the \<^verbatim>\<open>formProgress\<close> object store (xmlParser.ts 641-648), keyed by its form identifier.\<close>

record progress =
  p_formId :: string
  p_data :: json
  lastSaved :: int

text \<open>
  A row of the remote \<^verbatim>\<open>submissions\<close> table, with the columns the core reads or writes
  (\<^verbatim>\<open>database.types\<close>, \<^verbatim>\<open>submissions.Row\<close>). \<^verbatim>\<open>created_at\<close> is kept as the timestamp
  whose ISO text the source sends; it is absent when the insert leaves the column to the server.
\<close>

record remote_row =
  row_id :: string
  form_id :: string
  user_id :: "string option"
  row_data :: json
  created_at :: "int option"
  synced_to_teable :: bool
  teable_record_id :: "string option"
  sync_error :: "string option"

section \<open>IndexedDB object stores\<close>

text \<open>
  An object store with an in-line key path holds at most one record per key and iterates in
  ascending key order. It is a list of records kept in key order: \<^verbatim>\<open>get\<close> finds the record
  of a key, \<^verbatim>\<open>delete\<close> removes it (doing nothing when the key is absent) and \<^verbatim>\<open>put\<close>
  replaces the record of the key wholesale or inserts it.
\<close>

definition store_get :: "('v \<Rightarrow> string) \<Rightarrow> 'v list \<Rightarrow> string \<Rightarrow> 'v option" where
  "store_get key xs k = find (\<lambda>v. key v = k) xs"

definition store_delete :: "('v \<Rightarrow> string) \<Rightarrow> 'v list \<Rightarrow> string \<Rightarrow> 'v list" where
  "store_delete key xs k = filter (\<lambda>v. key v \<noteq> k) xs"

definition store_put :: "('v \<Rightarrow> string) \<Rightarrow> 'v \<Rightarrow> 'v list \<Rightarrow> 'v list" where
  "store_put key v xs = insort_key key v (store_delete key xs (key v))"

text \<open>
  Index keys. IndexedDB converts a value to a key only when it is a number, a string, a date,
  binary data or an array of keys; a boolean, \<^verbatim>\<open>null\<close> or an object is not a valid key, and a
  record whose index key path yields such a value is stored without an entry in that index.
\<close>

datatype idb_key = KNum int | KStr string

fun value_to_key :: "json \<Rightarrow> idb_key option" where
  "value_to_key (JNum n) = Some (KNum n)"
| "value_to_key (JStr s) = Some (KStr s)"
| "value_to_key JNull = None"
| "value_to_key (JBool b) = None"
| "value_to_key (JObj kvs) = None"

text \<open>
  \<^verbatim>\<open>getAllFromIndex(store, index, query)\<close>: the records whose index key equals the query,
  ordered by index key and then by primary key, which for one query key is the order of the
  store.
\<close>

definition getAllFromIndex :: "('v \<Rightarrow> idb_key option) \<Rightarrow> idb_key \<Rightarrow> 'v list \<Rightarrow> 'v list" where
  "getAllFromIndex index query xs = filter (\<lambda>v. index v = Some query) xs"

text \<open>
  The indexes \<^verbatim>\<open>getDB\<close> creates on the submissions store (xmlParser.ts 661-663):
  \<^verbatim>\<open>createIndex('by-form', 'formId')\<close> and \<^verbatim>\<open>createIndex('by-sync-status', 'synced')\<close>.
  The key of the second is read from the boolean field \<^verbatim>\<open>synced\<close>.
\<close>

definition by_form :: "submission \<Rightarrow> idb_key option" where
  "by_form s = value_to_key (JStr (formId s))"

definition by_sync_status :: "submission \<Rightarrow> idb_key option" where
  "by_sync_status s = value_to_key (JBool (synced s))"

section \<open>State\<close>

text \<open>
  The device's two object stores, the remote table, and two logs of what the code sent out:
  \<open>writes\<close> lists the identifiers of the remote upserts a pass issued, in order, and
  \<open>spawned\<close> the identifiers handed to \<^verbatim>\<open>syncSubmissionToTeable\<close> without awaiting it.
\<close>

record state =
  submissions :: "submission list"
  formProgress :: "progress list"
  remote :: "remote_row list"
  writes :: "string list"
  spawned :: "string list"

section \<open>Queue manager (offlineStorage.ts)\<close>

text \<open>
  \<^verbatim>\<open>queueSubmission\<close> (xmlParser.ts 726-739): a \<^verbatim>\<open>put\<close> of a fresh record built from the
  argument, with \<^verbatim>\<open>createdAt: Date.now()\<close> (the parameter \<open>now\<close>).
\<close>

definition queueSubmission :: "string \<Rightarrow> string \<Rightarrow> string option \<Rightarrow> json \<Rightarrow> int \<Rightarrow> state \<Rightarrow> state" where
  "queueSubmission sid fid uid payload now st =
     st\<lparr>submissions := store_put id'
        \<lparr>id' = sid, formId = fid, userId = uid, data' = payload, createdAt = now,
         synced = False, syncAttempts = 0, lastSyncError = None\<rparr>
        (submissions st)\<rparr>"

text \<open>
  \<^verbatim>\<open>getPendingSubmissions\<close> (xmlParser.ts 741-755):
  \<^verbatim>\<open>db.getAllFromIndex('submissions', 'by-sync-status', 0)\<close>, a lookup of the number 0.
\<close>

definition getPendingSubmissions :: "state \<Rightarrow> submission list" where
  "getPendingSubmissions st = getAllFromIndex by_sync_status (KNum 0) (submissions st)"

text \<open>\<^verbatim>\<open>markSubmissionSynced\<close> (xmlParser.ts 757-764).\<close>

definition markSubmissionSynced :: "string \<Rightarrow> state \<Rightarrow> state" where
  "markSubmissionSynced submissionId st =
     (case store_get id' (submissions st) submissionId of
        None \<Rightarrow> st
      | Some submission \<Rightarrow>
          st\<lparr>submissions := store_put id' (submission\<lparr>synced := True\<rparr>) (submissions st)\<rparr>)"

text \<open>\<^verbatim>\<open>updateSubmissionSyncError\<close> (xmlParser.ts 766-777).\<close>

definition updateSubmissionSyncError :: "string \<Rightarrow> string \<Rightarrow> state \<Rightarrow> state" where
  "updateSubmissionSyncError submissionId error st =
     (case store_get id' (submissions st) submissionId of
        None \<Rightarrow> st
      | Some submission \<Rightarrow>
          st\<lparr>submissions := store_put id'
             (submission\<lparr>syncAttempts := syncAttempts submission + 1, lastSyncError := Some error\<rparr>)
             (submissions st)\<rparr>)"

text \<open>\<^verbatim>\<open>deleteSubmission\<close> (xmlParser.ts 779-782).\<close>

definition deleteSubmission :: "string \<Rightarrow> state \<Rightarrow> state" where
  "deleteSubmission submissionId st =
     st\<lparr>submissions := store_delete id' (submissions st) submissionId\<rparr>"

section \<open>Draft autosave (offlineStorage.ts)\<close>

text \<open>\<^verbatim>\<open>saveFormProgress\<close>, \<^verbatim>\<open>getFormProgress\<close>, \<^verbatim>\<open>clearFormProgress\<close> (xmlParser.ts 784-805).\<close>

definition saveFormProgress :: "string \<Rightarrow> json \<Rightarrow> int \<Rightarrow> state \<Rightarrow> state" where
  "saveFormProgress fid payload now st =
     st\<lparr>formProgress := store_put p_formId
        \<lparr>p_formId = fid, p_data = payload, lastSaved = now\<rparr> (formProgress st)\<rparr>"

definition getFormProgress :: "string \<Rightarrow> state \<Rightarrow> progress option" where
  "getFormProgress fid st = store_get p_formId (formProgress st) fid"

definition clearFormProgress :: "string \<Rightarrow> state \<Rightarrow> state" where
  "clearFormProgress fid st = st\<lparr>formProgress := store_delete p_formId (formProgress st) fid\<rparr>"

definition empty_state :: state where
  "empty_state = \<lparr>submissions = [], formProgress = [], remote = [], writes = [], spawned = []\<rparr>"

section \<open>Remote store and secondary target\<close>

text \<open>
  A value caught by a \<^verbatim>\<open>catch\<close>: an \<^verbatim>\<open>Error\<close> instance with its message
  (\<^verbatim>\<open>new Error(...)\<close>, a \<^verbatim>\<open>TypeError\<close>), or any other value, which may still carry a
  \<^verbatim>\<open>message\<close> property. The remote client reports a failed request as the \<^verbatim>\<open>error\<close>
  member of its reply, a plain object with a \<^verbatim>\<open>message\<close>; the source throws that member, so
  what its \<^verbatim>\<open>catch\<close> receives for a failed remote request is a \<open>Plain\<close> value.
\<close>

datatype thrown = ErrorObj string | Plain "string option"

text \<open>\<^verbatim>\<open>err instanceof Error ? err.message : 'Unknown error'\<close> (backgroundSync.ts 60).\<close>

fun errorMessage :: "thrown \<Rightarrow> string" where
  "errorMessage (ErrorObj m) = m"
| "errorMessage (Plain m) = ''Unknown error''"

text \<open>\<^verbatim>\<open>error.message || 'Unknown error'\<close> (xmlParser.ts 556): an absent or empty message is falsy.\<close>

fun message_or_unknown :: "thrown \<Rightarrow> string" where
  "message_or_unknown (ErrorObj m) = (if m = [] then ''Unknown error'' else m)"
| "message_or_unknown (Plain None) = ''Unknown error''"
| "message_or_unknown (Plain (Some m)) = (if m = [] then ''Unknown error'' else m)"

text \<open>
  The row an upsert of a queued submission sends (backgroundSync.ts 36-42): \<^verbatim>\<open>id\<close>,
  \<^verbatim>\<open>form_id\<close>, \<^verbatim>\<open>user_id\<close>, \<^verbatim>\<open>data\<close>, \<^verbatim>\<open>created_at\<close>; the other columns take the
  table's defaults when the row is new.
\<close>

definition new_row :: "submission \<Rightarrow> remote_row" where
  "new_row s =
     \<lparr>row_id = id' s, form_id = formId s, user_id = userId s, row_data = data' s,
      created_at = Some (createdAt s),
      synced_to_teable = False, teable_record_id = None, sync_error = None\<rparr>"

text \<open>
  \<^verbatim>\<open>.upsert(row)\<close> on the remote table, whose primary key is \<^verbatim>\<open>id\<close>: a row with the same
  identifier has the sent columns overwritten and keeps the others; otherwise the row is added.
\<close>

fun upsert :: "remote_row \<Rightarrow> remote_row list \<Rightarrow> remote_row list" where
  "upsert r [] = [r]"
| "upsert r (x # xs) =
     (if row_id x = row_id r
      then x\<lparr>form_id := form_id r, user_id := user_id r, row_data := row_data r,
             created_at := created_at r\<rparr> # xs
      else x # upsert r xs)"

text \<open>\<^verbatim>\<open>.update(f).eq('id', k)\<close>: every row whose identifier is \<open>k\<close> is changed by \<open>f\<close>.\<close>

definition update_eq :: "string \<Rightarrow> (remote_row \<Rightarrow> remote_row) \<Rightarrow> remote_row list \<Rightarrow> remote_row list" where
  "update_eq k f R = map (\<lambda>x. if row_id x = k then f x else x) R"

text \<open>
  What the outside world answers during one call of \<^verbatim>\<open>syncSubmissionToTeable\<close>: the select of
  the row fails; the row comes back without its project; the project has no Teable settings;
  the \<^verbatim>\<open>fetch\<close> or the reading of its reply throws; the response is not ok, with its text; or
  the record is created, with the identifier read from the reply (which may be missing).
\<close>

datatype teable_reply =
    SelectFailed thrown
  | ProjectMissing
  | NotConfigured
  | FetchThrew thrown
  | ResponseNotOk string
  | Posted "string option"

text \<open>
  The environment of one sync pass: the outcome of the remote upsert of each submission
  (\<open>None\<close> when the row comes back, \<open>Some m\<close> when the reply carries an error, which the
  source throws), and the reply of the secondary target for each remote identifier. The error
  of an upsert is the plain object of the client's reply, given by its message.
\<close>

record env =
  upsert_result :: "submission \<Rightarrow> string option"
  teable_result :: "string \<Rightarrow> teable_reply"

text \<open>
  The \<^verbatim>\<open>try\<close> block of \<^verbatim>\<open>syncSubmissionToTeable\<close> (xmlParser.ts 461-548), in the order
  of its statements: \<open>Inl\<close> is the value it throws, \<open>Inr None\<close> the early return for a project
  without Teable settings, \<open>Inr (Some recordId)\<close> the successful push. Reading a setting of a
  missing project (line 485) and \<^verbatim>\<open>Object.entries\<close> of a \<^verbatim>\<open>null\<close> payload (line 497) throw
  a \<^verbatim>\<open>TypeError\<close> before any request is sent; the message texts are those of the V8 engine.
\<close>

definition entries_of_null :: thrown where
  "entries_of_null = ErrorObj ''Cannot convert undefined or null to object''"

fun teable_try :: "teable_reply \<Rightarrow> remote_row option \<Rightarrow> thrown + (string option) option" where
  "teable_try (SelectFailed e) row = Inl e"
| "teable_try reply None = Inl (ErrorObj ''Submission not found'')"
| "teable_try ProjectMissing (Some row) =
     Inl (ErrorObj ''Cannot read properties of undefined (reading 'teable_base_url')'')"
| "teable_try NotConfigured (Some row) = Inr None"
| "teable_try (FetchThrew e) (Some row) =
     (if row_data row = JNull then Inl entries_of_null else Inl e)"
| "teable_try (ResponseNotOk errorText) (Some row) =
     (if row_data row = JNull then Inl entries_of_null
      else Inl (ErrorObj (''Teable sync failed: '' @ errorText)))"
| "teable_try (Posted recordId) (Some row) =
     (if row_data row = JNull then Inl entries_of_null else Inr (Some recordId))"

text \<open>
  \<^verbatim>\<open>syncSubmissionToTeable\<close> (xmlParser.ts 458-562), as its effect on the remote table; the
  second component is the returned \<^verbatim>\<open>success\<close> flag. A missing \<^verbatim>\<open>recordId\<close> leaves the
  column \<^verbatim>\<open>teable_record_id\<close> out of the update.
\<close>

definition syncSubmissionToTeable :: "env \<Rightarrow> string \<Rightarrow> remote_row list \<Rightarrow> remote_row list \<times> bool" where
  "syncSubmissionToTeable e submissionId R =
     (case teable_try (teable_result e submissionId) (find (\<lambda>x. row_id x = submissionId) R) of
        Inr None \<Rightarrow> (R, False)
      | Inr (Some recordId) \<Rightarrow>
          (update_eq submissionId
             (\<lambda>x. x\<lparr>synced_to_teable := True,
                    teable_record_id := (case recordId of None \<Rightarrow> teable_record_id x | Some i \<Rightarrow> Some i),
                    sync_error := None\<rparr>) R, True)
      | Inl err \<Rightarrow>
          (update_eq submissionId
             (\<lambda>x. x\<lparr>synced_to_teable := False, sync_error := Some (message_or_unknown err)\<rparr>) R,
           False))"

section \<open>Sync pass (backgroundSync.ts)\<close>

record results =
  success :: nat
  failed :: nat
  errors :: "string list"

definition no_results :: results where
  "no_results = \<lparr>success = 0, failed = 0, errors = []\<rparr>"

text \<open>
  The \<^verbatim>\<open>try\<close> block of one loop iteration after the ceiling test (backgroundSync.ts 34-57).
  The upsert is issued; when its reply carries an error, the error is thrown (\<open>Inl\<close>, with the
  state reached so far). Otherwise \<^verbatim>\<open>syncSubmissionToTeable(data.id)\<close> is started and not
  awaited, its rejection swallowed by \<^verbatim>\<open>.catch\<close>; then the record is marked and deleted.
  (\<^verbatim>\<open>createdAt\<close> is always a \<^verbatim>\<open>Date.now()\<close>, so building the row does not throw.)
\<close>

definition try_upload :: "env \<Rightarrow> submission \<Rightarrow> state \<Rightarrow> thrown \<times> state + state" where
  "try_upload e submission st =
     (let st1 = st\<lparr>writes := writes st @ [id' submission]\<rparr> in
      case upsert_result e submission of
        Some message \<Rightarrow> Inl (Plain (Some message), st1)
      | None \<Rightarrow>
          Inr (deleteSubmission (id' submission)
                (markSubmissionSynced (id' submission)
                  (st1\<lparr>remote := upsert (new_row submission) (remote st1),
                       spawned := spawned st1 @ [id' submission]\<rparr>))))"

text \<open>One iteration of the loop (backgroundSync.ts 25-65), on the snapshot record \<open>submission\<close>.\<close>

definition syncOne :: "env \<Rightarrow> submission \<Rightarrow> state \<times> results \<Rightarrow> state \<times> results" where
  "syncOne e submission acc =
     (let st = fst acc; res = snd acc in
      if 5 \<le> syncAttempts submission then
        (st, res\<lparr>failed := failed res + 1,
                 errors := errors res @
                   [''Submission '' @ id' submission @ '': Max sync attempts exceeded'']\<rparr>)
      else
        (case try_upload e submission st of
           Inr st' \<Rightarrow> (st', res\<lparr>success := success res + 1\<rparr>)
         | Inl (err, st') \<Rightarrow>
             (updateSubmissionSyncError (id' submission) (errorMessage err) st',
              res\<lparr>failed := failed res + 1,
                  errors := errors res @
                    [''Submission '' @ id' submission @ '': '' @ errorMessage err]\<rparr>)))"

text \<open>The loop over the fetched list.\<close>

fun syncItems :: "env \<Rightarrow> submission list \<Rightarrow> state \<times> results \<Rightarrow> state \<times> results" where
  "syncItems e [] acc = acc"
| "syncItems e (submission # pending) acc = syncItems e pending (syncOne e submission acc)"

text \<open>
  \<^verbatim>\<open>syncPendingSubmissions\<close> (backgroundSync.ts 5-72). The local store operations are taken
  to succeed, so the outer \<^verbatim>\<open>catch\<close> is not entered.
\<close>

definition syncPendingSubmissions :: "env \<Rightarrow> state \<Rightarrow> state \<times> results" where
  "syncPendingSubmissions e st =
     (let pending = getPendingSubmissions st in
      if length pending = 0 then (st, no_results)
      else syncItems e pending (st, no_results))"

text \<open>
  The dashboard's "Sync Now" button (\<^verbatim>\<open>handleSync\<close>, bundled in \<^verbatim>\<open>src/public/sw.js\<close>,
  lines 474-494): the same \<^verbatim>\<open>syncPendingSubmissions()\<close>, followed by alerts.
\<close>

datatype alert =
    AlertSynced nat
  | AlertFailed nat
  | AlertNothingPending
  | AlertSaved
  | AlertQueued
  | AlertSubmitFailed string

definition handleSync :: "env \<Rightarrow> state \<Rightarrow> (state \<times> results) \<times> alert list" where
  "handleSync e st =
     (let r = syncPendingSubmissions e st; res = snd r in
      (r,
       (if 0 < success res then [AlertSynced (success res)] else []) @
       (if 0 < failed res then [AlertFailed (failed res)] else []) @
       (if success res = 0 \<and> failed res = 0 then [AlertNothingPending] else [])))"

section \<open>Submit handler (FormCollect.tsx)\<close>

text \<open>
  The reply to the online insert: the new row's server-generated identifier, or the message of
  the reply's error, which \<^verbatim>\<open>(err as Error).message\<close> reads for the alert.
\<close>

datatype insert_reply = Inserted string | InsertFailed string

text \<open>
  \<^verbatim>\<open>handleSubmit\<close> (FormCollect.tsx 94-139). Online, the submission is inserted into the
  remote table (the server names the row), the secondary sync is started without awaiting it
  and the draft is cleared; a failed insert is thrown past the clearing into the alert of the
  \<^verbatim>\<open>catch\<close>. Offline, the submission is queued under the identifier made on the client and
  the draft is cleared.
\<close>

definition handleSubmit ::
  "bool \<Rightarrow> insert_reply \<Rightarrow> string \<Rightarrow> string option \<Rightarrow> json \<Rightarrow> string \<Rightarrow> int \<Rightarrow> state \<Rightarrow> state \<times> alert" where
  "handleSubmit isOnline reply fid uid values submissionId now st =
     (if isOnline then
        (case reply of
           InsertFailed message \<Rightarrow> (st, AlertSubmitFailed message)
         | Inserted rid \<Rightarrow>
             (clearFormProgress fid
                (st\<lparr>remote := remote st @
                       [\<lparr>row_id = rid, form_id = fid, user_id = uid, row_data = values,
                         created_at = None, synced_to_teable = False, teable_record_id = None,
                         sync_error = None\<rparr>],
                     spawned := spawned st @ [rid]\<rparr>),
              AlertSaved))
      else
        (clearFormProgress fid (queueSubmission submissionId fid uid values now st), AlertQueued))"

section \<open>Draft autosave of the open form (FormCollect.tsx 21-40, 190)\<close>

text \<open>
  The part of the component's state the autosave effect depends on: the answers
  (\<^verbatim>\<open>values\<close>, a record from field name to value, here \<open>answers\<close>), the flag
  \<^verbatim>\<open>autoSaveEnabled\<close> (initially true; its setter is never called), and the pending
  \<^verbatim>\<open>setTimeout\<close> of the effect, with the answers its callback has captured.
\<close>

record page =
  answers :: "(string \<times> json) list"
  autoSaveEnabled :: bool
  autosave_timer :: "(string \<times> json) list option"

definition opened_page :: page where
  "opened_page = \<lparr>answers = [], autoSaveEnabled = True, autosave_timer = None\<rparr>"

text \<open>
  The effect of lines 31-40 runs again when \<^verbatim>\<open>values\<close> changes: the clean-up of the last run
  clears its timer, and a new 2 s timer is set when autosave is enabled, the form identifier is
  non-empty and at least one field has a value.
\<close>

definition autosave_effect :: "string \<Rightarrow> page \<Rightarrow> page" where
  "autosave_effect fid pg =
     pg\<lparr>autosave_timer :=
          (if autoSaveEnabled pg \<and> fid \<noteq> [] \<and> 0 < length (answers pg)
           then Some (answers pg) else None)\<rparr>"

text \<open>\<^verbatim>\<open>{ ...values, [field.name]: value }\<close> (line 190).\<close>

fun set_field :: "string \<Rightarrow> json \<Rightarrow> (string \<times> json) list \<Rightarrow> (string \<times> json) list" where
  "set_field name v [] = [(name, v)]"
| "set_field name v (kv # kvs) =
     (if fst kv = name then (name, v) # kvs else kv # set_field name v kvs)"

text \<open>An edit of one field: \<^verbatim>\<open>setValues\<close>, after which the effect runs again.\<close>

definition onChange :: "string \<Rightarrow> string \<Rightarrow> json \<Rightarrow> page \<Rightarrow> page" where
  "onChange fid name v pg = autosave_effect fid (pg\<lparr>answers := set_field name v (answers pg)\<rparr>)"

text \<open>
  The timer's callback: \<^verbatim>\<open>saveFormProgress(formId, values)\<close> with the captured answers, at
  the time \<open>now\<close>. Nothing happens when no timer is pending.
\<close>

definition autosave_fires :: "string \<Rightarrow> int \<Rightarrow> state \<times> page \<Rightarrow> state \<times> page" where
  "autosave_fires fid now sp =
     (case autosave_timer (snd sp) of
        None \<Rightarrow> sp
      | Some captured \<Rightarrow>
          (saveFormProgress fid (JObj captured) now (fst sp), (snd sp)\<lparr>autosave_timer := None\<rparr>))"

text \<open>
  Submitting from the page: \<^verbatim>\<open>handleSubmit\<close> with the current answers. It changes
  \<^verbatim>\<open>submitting\<close> only, which the effect does not depend on, so a pending timer stays
  pending; the timer is cleared when the component unmounts after the navigation.
\<close>

definition submit_page ::
  "bool \<Rightarrow> insert_reply \<Rightarrow> string \<Rightarrow> string option \<Rightarrow> string \<Rightarrow> int \<Rightarrow> state \<times> page \<Rightarrow> (state \<times> page) \<times> alert" where
  "submit_page isOnline reply fid uid submissionId now sp =
     (let r = handleSubmit isOnline reply fid uid (JObj (answers (snd sp))) submissionId now (fst sp)
      in ((fst r, snd sp), snd r))"

definition unmount :: "page \<Rightarrow> page" where
  "unmount pg = pg\<lparr>autosave_timer := None\<rparr>"

section \<open>Sync listener (backgroundSync.ts 74-116)\<close>

text \<open>
  \<^verbatim>\<open>registerSyncListener\<close> keeps the flag \<^verbatim>\<open>syncInProgress\<close> in its closure; only
  \<^verbatim>\<open>triggerSync\<close> reads and writes it. The flag is joined by two counters of the passes in
  flight: those started by \<^verbatim>\<open>triggerSync\<close> (the \<^verbatim>\<open>online\<close> event, the interval timer, the
  start-up timer) and those started by the dashboard's \<^verbatim>\<open>handleSync\<close>.
\<close>

record orchestrator =
  syncInProgress :: bool
  listener_passes :: nat
  manual_passes :: nat

definition idle :: orchestrator where
  "idle = \<lparr>syncInProgress = False, listener_passes = 0, manual_passes = 0\<rparr>"

text \<open>
  \<^verbatim>\<open>triggerSync\<close> runs in two uninterrupted pieces. The first (lines 80-84) tests the flag
  and \<^verbatim>\<open>navigator.onLine\<close>, sets the flag and starts the pass.
\<close>

definition triggerSync_enter :: "bool \<Rightarrow> orchestrator \<Rightarrow> orchestrator" where
  "triggerSync_enter onLine orc =
     (if syncInProgress orc \<or> \<not> onLine then orc
      else orc\<lparr>syncInProgress := True, listener_passes := listener_passes orc + 1\<rparr>)"

text \<open>
  The second piece (lines 85-95) runs when the awaited pass has returned its results (\<open>Inr\<close>)
  or thrown (\<open>Inl\<close>): the event \<^verbatim>\<open>submissions-synced\<close> is dispatched when something was
  synced (the boolean), and the \<^verbatim>\<open>finally\<close> block clears the flag.
\<close>

definition triggerSync_finally :: "thrown + results \<Rightarrow> orchestrator \<Rightarrow> orchestrator \<times> bool" where
  "triggerSync_finally outcome orc =
     (orc\<lparr>syncInProgress := False, listener_passes := listener_passes orc - 1\<rparr>,
      (case outcome of Inl err \<Rightarrow> False | Inr res \<Rightarrow> 0 < success res))"

text \<open>
  \<^verbatim>\<open>handleSync\<close> (sw.js 474-494) calls \<^verbatim>\<open>syncPendingSubmissions\<close> itself; the listener's
  flag is not in its scope.
\<close>

definition handleSync_enter :: "orchestrator \<Rightarrow> orchestrator" where
  "handleSync_enter orc = orc\<lparr>manual_passes := manual_passes orc + 1\<rparr>"

definition handleSync_finally :: "orchestrator \<Rightarrow> orchestrator" where
  "handleSync_finally orc = orc\<lparr>manual_passes := manual_passes orc - 1\<rparr>"

text \<open>The states the event loop can reach: a pass ends only while it is in flight.\<close>

inductive reachable :: "orchestrator \<Rightarrow> bool" where
  start: "reachable idle"
| trigger: "reachable orc \<Longrightarrow> reachable (triggerSync_enter onLine orc)"
| pass_ends: "reachable orc \<Longrightarrow> 0 < listener_passes orc \<Longrightarrow>
     reachable (fst (triggerSync_finally outcome orc))"
| sync_now: "reachable orc \<Longrightarrow> reachable (handleSync_enter orc)"
| sync_now_ends: "reachable orc \<Longrightarrow> 0 < manual_passes orc \<Longrightarrow>
     reachable (handleSync_finally orc)"

section \<open>Concrete inputs\<close>

definition queued_once :: state where
  "queued_once = queueSubmission ''sub_1'' ''form_1'' None JNull 1 empty_state"

definition retried_thrice :: state where
  "retried_thrice =
     empty_state\<lparr>submissions :=
       [\<lparr>id' = ''sub_1'', formId = ''form_1'', userId = None, data' = JStr ''first'', createdAt = 1,
         synced = False, syncAttempts = 3, lastSyncError = Some ''timeout''\<rparr>]\<rparr>"

definition env_ok :: env where
  "env_ok = \<lparr>upsert_result = (\<lambda>s. None), teable_result = (\<lambda>k. Posted (Some ''rec_1''))\<rparr>"


definition env_rejects :: env where
  "env_rejects =
     \<lparr>upsert_result = (\<lambda>s. Some ''permission denied''), teable_result = (\<lambda>k. NotConfigured)\<rparr>"

definition sub_1 :: submission where
  "sub_1 = \<lparr>id' = ''sub_1'', formId = ''form_1'', userId = None, data' = JStr ''first'', createdAt = 1,
            synced = False, syncAttempts = 0, lastSyncError = None\<rparr>"

definition exhausted :: submission where
  "exhausted = \<lparr>id' = ''sub_0'', formId = ''form_1'', userId = None, data' = JNull, createdAt = 0,
            synced = False, syncAttempts = 5, lastSyncError = Some ''timeout''\<rparr>"

definition stuck :: state where
  "stuck = empty_state\<lparr>submissions := [exhausted]\<rparr>"

text \<open>The record \<open>sub_1\<close>, queued on an empty store.\<close>

definition sub_1_queued :: state where
  "sub_1_queued = queueSubmission ''sub_1'' ''form_1'' None (JStr ''first'') 1 empty_state"


text \<open>The page after one field was filled in, its autosave timer pending.\<close>

definition edited_page :: page where
  "edited_page = onChange ''form_1'' ''name'' (JStr ''Ada'') opened_page"

section \<open>Object store lemmas\<close>

lemma store_get_delete:
  "store_get key (store_delete key xs k) j = (if j = k then None else store_get key xs j)"
  by (induction xs) (auto simp: store_get_def store_delete_def)

lemma find_insort_key_other:
  "\<not> P v \<Longrightarrow> find P (insort_key key v xs) = find P xs"
  by (induction xs) auto

lemma find_insort_key_fresh:
  "P v \<Longrightarrow> \<forall>x\<in>set xs. \<not> P x \<Longrightarrow> find P (insort_key key v xs) = Some v"
  by (induction xs) auto

lemma store_get_put:
  "store_get key (store_put key v xs) k = (if k = key v then Some v else store_get key xs k)"
proof (cases "k = key v")
  case True
  have "\<forall>x\<in>set (store_delete key xs (key v)). \<not> key x = key v"
    by (simp add: store_delete_def)
  then show ?thesis
    using True by (simp add: store_get_def store_put_def find_insort_key_fresh)
next
  case False
  then have "find (\<lambda>x. key x = k) (insort_key key v (store_delete key xs (key v)))
             = find (\<lambda>x. key x = k) (store_delete key xs (key v))"
    by (intro find_insort_key_other) simp
  then show ?thesis
    using False store_get_delete [of key xs "key v" k]
    by (simp add: store_get_def store_put_def)
qed

lemma getPendingSubmissions_empty: "getPendingSubmissions st = []"
  by (simp add: getPendingSubmissions_def getAllFromIndex_def by_sync_status_def)

lemma length_filter_insort_key:
  "length (filter P (insort_key key v xs)) = (if P v then 1 else 0) + length (filter P xs)"
  by (induction xs) auto

lemma distinct_map_insort_key:
  "distinct (map key (insort_key key v xs)) = (key v \<notin> key ` set xs \<and> distinct (map key xs))"
  by (induction xs) (auto simp: set_insort_key)

lemma distinct_store_delete:
  "distinct (map key xs) \<Longrightarrow> distinct (map key (store_delete key xs k))"
  by (simp add: store_delete_def distinct_map_filter)

lemma distinct_store_put:
  "distinct (map key xs) \<Longrightarrow> distinct (map key (store_put key v xs))"
  by (auto simp: store_put_def distinct_map_insort_key store_delete_def distinct_map_filter)

lemma sorted_store_put:
  "sorted (map key xs) \<Longrightarrow> sorted (map key (store_put key v xs))"
  by (simp add: store_put_def store_delete_def sorted_insort_key sorted_filter)

lemma count_store_put:
  "length (filter (\<lambda>x. key x = key v) (store_put key v xs)) = 1"
  by (simp add: store_put_def store_delete_def length_filter_insort_key)

section \<open>The sync pass, step by step\<close>

lemma store_get_Some_key: "store_get key xs k = Some v \<Longrightarrow> key v = k"
  by (auto simp: store_get_def dest: find_Some_iff[THEN iffD1])

lemma store_get_None_iff: "store_get key xs k = None \<longleftrightarrow> k \<notin> key ` set xs"
  by (auto simp: store_get_def find_None_iff)

lemma filter_insort_key_out: "\<not> P v \<Longrightarrow> filter P (insort_key key v xs) = filter P xs"
  by (induction xs) auto

lemma store_delete_put: "store_delete key (store_put key v xs) (key v) = store_delete key xs (key v)"
  by (simp add: store_put_def store_delete_def filter_insort_key_out)

lemma submissions_markSubmissionSynced_delete:
  "submissions (deleteSubmission k (markSubmissionSynced k st)) = store_delete id' (submissions st) k"
proof (cases "store_get id' (submissions st) k")
  case None
  then show ?thesis by (simp add: deleteSubmission_def markSubmissionSynced_def)
next
  case (Some v)
  then have "id' v = k" by (rule store_get_Some_key)
  then have "store_delete id' (store_put id' (v\<lparr>synced := True\<rparr>) (submissions st)) k
             = store_delete id' (submissions st) k"
    using store_delete_put [of id' "v\<lparr>synced := True\<rparr>" "submissions st"] by simp
  then show ?thesis using Some by (simp add: deleteSubmission_def markSubmissionSynced_def)
qed

lemma syncOne_exhausted:
  "5 \<le> syncAttempts s \<Longrightarrow>
   syncOne e s (st, res) =
     (st, res\<lparr>failed := failed res + 1,
              errors := errors res @ [''Submission '' @ id' s @ '': Max sync attempts exceeded'']\<rparr>)"
  by (simp add: syncOne_def)

lemma syncOne_failure:
  "syncAttempts s < 5 \<Longrightarrow> upsert_result e s = Some m \<Longrightarrow>
   syncOne e s (st, res) =
     (updateSubmissionSyncError (id' s) (errorMessage (Plain (Some m)))
        (st\<lparr>writes := writes st @ [id' s]\<rparr>),
      res\<lparr>failed := failed res + 1,
          errors := errors res @ [''Submission '' @ id' s @ '': '' @ errorMessage (Plain (Some m))]\<rparr>)"
  by (simp add: syncOne_def try_upload_def)

lemma syncOne_success:
  "syncAttempts s < 5 \<Longrightarrow> upsert_result e s = None \<Longrightarrow>
   syncOne e s (st, res) =
     (deleteSubmission (id' s) (markSubmissionSynced (id' s)
        (st\<lparr>writes := writes st @ [id' s],
            remote := upsert (new_row s) (remote st),
            spawned := spawned st @ [id' s]\<rparr>)),
      res\<lparr>success := success res + 1\<rparr>)"
  by (simp add: syncOne_def try_upload_def)


lemma markSubmissionSynced_fields [simp]:
  "remote (markSubmissionSynced k st) = remote st"
  "writes (markSubmissionSynced k st) = writes st"
  "spawned (markSubmissionSynced k st) = spawned st"
  "formProgress (markSubmissionSynced k st) = formProgress st"
  by (simp_all add: markSubmissionSynced_def split: option.splits)

lemma deleteSubmission_fields [simp]:
  "remote (deleteSubmission k st) = remote st"
  "writes (deleteSubmission k st) = writes st"
  "spawned (deleteSubmission k st) = spawned st"
  "formProgress (deleteSubmission k st) = formProgress st"
  by (simp_all add: deleteSubmission_def)

lemma updateSubmissionSyncError_fields [simp]:
  "remote (updateSubmissionSyncError k m st) = remote st"
  "writes (updateSubmissionSyncError k m st) = writes st"
  "spawned (updateSubmissionSyncError k m st) = spawned st"
  "formProgress (updateSubmissionSyncError k m st) = formProgress st"
  by (simp_all add: updateSubmissionSyncError_def split: option.splits)

lemma submissions_updateSubmissionSyncError:
  "submissions (updateSubmissionSyncError k m st) =
     (case store_get id' (submissions st) k of
        None \<Rightarrow> submissions st
      | Some v \<Rightarrow> store_put id' (v\<lparr>syncAttempts := syncAttempts v + 1, lastSyncError := Some m\<rparr>)
                    (submissions st))"
  by (simp add: updateSubmissionSyncError_def split: option.splits)

lemma syncOne_writes:
  "writes (fst (syncOne e s acc)) =
     (if 5 \<le> syncAttempts s then writes (fst acc) else writes (fst acc) @ [id' s])"
  by (simp add: syncOne_def try_upload_def Let_def split: option.splits)


lemma syncOne_spawned:
  "spawned (fst (syncOne e s acc)) =
     (if syncAttempts s < 5 \<and> upsert_result e s = None
      then spawned (fst acc) @ [id' s] else spawned (fst acc))"
  by (auto simp: syncOne_def try_upload_def Let_def split: option.splits)

lemma syncOne_formProgress:
  "formProgress (fst (syncOne e s acc)) = formProgress (fst acc)"
  by (auto simp: syncOne_def try_upload_def Let_def split: option.splits)

lemma syncOne_submissions:
  "submissions (fst (syncOne e s acc)) =
     (if 5 \<le> syncAttempts s then submissions (fst acc)
      else case upsert_result e s of
             None \<Rightarrow> store_delete id' (submissions (fst acc)) (id' s)
           | Some m \<Rightarrow>
               submissions (updateSubmissionSyncError (id' s) (errorMessage (Plain (Some m))) (fst acc)))"
  by (auto simp: syncOne_def try_upload_def Let_def submissions_markSubmissionSynced_delete
        submissions_updateSubmissionSyncError split: option.splits)

lemma syncOne_results:
  "snd (syncOne e s acc) =
     (if 5 \<le> syncAttempts s then
        (snd acc)\<lparr>failed := failed (snd acc) + 1,
                  errors := errors (snd acc) @ [''Submission '' @ id' s @ '': Max sync attempts exceeded'']\<rparr>
      else case upsert_result e s of
             None \<Rightarrow> (snd acc)\<lparr>success := success (snd acc) + 1\<rparr>
           | Some m \<Rightarrow>
               (snd acc)\<lparr>failed := failed (snd acc) + 1,
                         errors := errors (snd acc) @
                           [''Submission '' @ id' s @ '': '' @ errorMessage (Plain (Some m))]\<rparr>)"
  by (auto simp: syncOne_def try_upload_def Let_def split: option.splits)

text \<open>A step touches only the record of its own identifier.\<close>

lemma syncOne_get_other:
  "k \<noteq> id' s \<Longrightarrow>
   store_get id' (submissions (fst (syncOne e s acc))) k = store_get id' (submissions (fst acc)) k"
  by (auto simp: syncOne_submissions submissions_updateSubmissionSyncError store_get_delete
        store_get_put dest: store_get_Some_key split: option.splits)

lemma set_row_id_upsert:
  "row_id ` set (upsert r R) = insert (row_id r) (row_id ` set R)"
  by (induction R) auto

lemma distinct_row_id_upsert:
  "distinct (map row_id R) \<Longrightarrow> distinct (map row_id (upsert r R))"
proof (induction R)
  case Nil
  then show ?case by simp
next
  case (Cons x R)
  have "row_id ` set (upsert r R) = insert (row_id r) (row_id ` set R)"
    by (rule set_row_id_upsert)
  with Cons show ?case by auto
qed

lemma syncItems_writes:
  "writes (fst (syncItems e pending acc)) =
     writes (fst acc) @ map id' (filter (\<lambda>s. syncAttempts s < 5) pending)"
  by (induction pending arbitrary: acc) (simp_all add: syncOne_writes)

lemma syncItems_get_other:
  "k \<notin> id' ` set pending \<Longrightarrow>
   store_get id' (submissions (fst (syncItems e pending acc))) k = store_get id' (submissions (fst acc)) k"
  by (induction pending arbitrary: acc) (simp_all add: syncOne_get_other)

lemma syncItems_exhausted_untouched:
  "distinct (map id' pending) \<Longrightarrow> s \<in> set pending \<Longrightarrow> 5 \<le> syncAttempts s \<Longrightarrow>
   store_get id' (submissions (fst (syncItems e pending acc))) (id' s)
     = store_get id' (submissions (fst acc)) (id' s)"
proof (induction pending arbitrary: acc)
  case Nil
  then show ?case by simp
next
  case (Cons p pending)
  show ?case
  proof (cases "p = s")
    case True
    with Cons.prems have "id' s \<notin> id' ` set pending" by auto
    then show ?thesis
      using True Cons.prems by (simp add: syncItems_get_other syncOne_submissions)
  next
    case False
    with Cons.prems have mem: "s \<in> set pending" and "id' p \<noteq> id' s" by auto
    then show ?thesis
      using Cons by (simp add: syncOne_get_other)
  qed
qed

lemma syncPendingSubmissions_items:
  "syncPendingSubmissions e st = syncItems e (getPendingSubmissions st) (st, no_results)"
  by (cases "getPendingSubmissions st") (simp_all add: syncPendingSubmissions_def Let_def)

lemma fst_handleSync: "fst (handleSync e st) = syncPendingSubmissions e st"
  by (simp add: handleSync_def Let_def)

text \<open>
  The fetch of a pass finds nothing, whatever the store holds, so the pass returns the state
  it was given and an empty summary.
\<close>

lemma syncPendingSubmissions_fetches_nothing: "syncPendingSubmissions e st = (st, no_results)"
  by (simp add: syncPendingSubmissions_def getPendingSubmissions_empty)

lemma submissions_sub_1_queued: "submissions sub_1_queued = [sub_1]"
  by (simp add: sub_1_queued_def queueSubmission_def store_put_def store_delete_def
      empty_state_def sub_1_def)


text \<open>A row whose payload is \<^verbatim>\<open>null\<close> makes the secondary task throw before it sends anything.\<close>

lemma teable_try_null_payload:
  "row_data row = JNull \<Longrightarrow> teable_try (Posted recordId) (Some row) = Inl entries_of_null"
  by simp

section \<open>The listener's flag\<close>

lemma reachable_flag_counts:
  "reachable orc \<Longrightarrow> listener_passes orc = (if syncInProgress orc then 1 else 0)"
proof (induction rule: reachable.induct)
  case start
  then show ?case by (simp add: idle_def)
next
  case (trigger orc onLine)
  then show ?case by (simp add: triggerSync_enter_def)
next
  case (pass_ends orc outcome)
  then show ?case by (simp add: triggerSync_finally_def split: if_splits)
next
  case (sync_now orc)
  then show ?case by (simp add: handleSync_enter_def)
next
  case (sync_now_ends orc)
  then show ?case by (simp add: handleSync_finally_def)
qed

section \<open>Claims\<close>

subsection \<open>C2: what \<open>getPendingSubmissions\<close> returns\<close>

text \<open>
  C2. The claim says that \<^verbatim>\<open>getPendingSubmissions\<close> returns the queued submissions whose
  \<^verbatim>\<open>synced\<close> flag is false. After one \<^verbatim>\<open>queueSubmission\<close> on an empty store the record is
  stored with \<^verbatim>\<open>synced = false\<close>, and \<^verbatim>\<open>getPendingSubmissions\<close> returns the empty list:
  the index \<^verbatim>\<open>by-sync-status\<close> is read from a boolean, which is no index key, and the lookup
  asks for the number 0. (The index \<^verbatim>\<open>by-form\<close>, read from a string, does find the record.)
\<close>

theorem C2_pending_lookup_misses_queued_record:
  "store_get id' (submissions queued_once) ''sub_1'' =
     Some \<lparr>id' = ''sub_1'', formId = ''form_1'', userId = None, data' = JNull, createdAt = 1,
           synced = False, syncAttempts = 0, lastSyncError = None\<rparr>
   \<and> map id' (getAllFromIndex by_form (KStr ''form_1'') (submissions queued_once)) = [''sub_1'']
   \<and> getPendingSubmissions queued_once = []"
  by (simp add: queued_once_def queueSubmission_def store_get_put getPendingSubmissions_empty)
    (simp add: store_put_def store_delete_def empty_state_def getAllFromIndex_def by_form_def)

subsection \<open>C4: \<open>queueSubmission\<close>\<close>

text \<open>
  C4, as stated, fails: enqueueing an identifier that is already in the queue replaces the
  stored record. The record of \<open>sub_1\<close>, with three failed attempts and its first payload, is
  overwritten by the new payload with the counter back at 0.
\<close>

theorem C4_enqueue_overwrites_counterexample:
  "store_get id' (submissions retried_thrice) ''sub_1'' =
     Some \<lparr>id' = ''sub_1'', formId = ''form_1'', userId = None, data' = JStr ''first'', createdAt = 1,
           synced = False, syncAttempts = 3, lastSyncError = Some ''timeout''\<rparr>
   \<and> store_get id' (submissions (queueSubmission ''sub_1'' ''form_1'' None (JStr ''second'') 2 retried_thrice)) ''sub_1'' =
     Some \<lparr>id' = ''sub_1'', formId = ''form_1'', userId = None, data' = JStr ''second'', createdAt = 2,
           synced = False, syncAttempts = 0, lastSyncError = None\<rparr>"
  by (simp add: retried_thrice_def empty_state_def queueSubmission_def store_get_put)
    (simp add: store_get_def)

text \<open>
  C4, amended: \<^verbatim>\<open>queueSubmission\<close> stores, under the given identifier, a record with the given
  form, user and payload, \<^verbatim>\<open>synced = false\<close>, attempt counter 0 and no error, whether or not
  the identifier was already queued (a record already stored under it is replaced wholesale);
  exactly one record then bears the identifier, and the records of all other identifiers are
  left as they were.
\<close>

theorem C4_enqueue_puts_fresh_record:
  "store_get id' (submissions (queueSubmission sid fid uid payload now st)) sid =
     Some \<lparr>id' = sid, formId = fid, userId = uid, data' = payload, createdAt = now,
           synced = False, syncAttempts = 0, lastSyncError = None\<rparr>
   \<and> length (filter (\<lambda>x. id' x = sid) (submissions (queueSubmission sid fid uid payload now st))) = 1
   \<and> (k \<noteq> sid \<longrightarrow>
        store_get id' (submissions (queueSubmission sid fid uid payload now st)) k =
        store_get id' (submissions st) k)"
proof -
  let ?v = "\<lparr>id' = sid, formId = fid, userId = uid, data' = payload, createdAt = now,
             synced = False, syncAttempts = 0, lastSyncError = None\<rparr>"
  have sub: "submissions (queueSubmission sid fid uid payload now st) = store_put id' ?v (submissions st)"
    by (simp add: queueSubmission_def)
  have "length (filter (\<lambda>x. id' x = id' ?v) (store_put id' ?v (submissions st))) = 1"
    by (rule count_store_put)
  then show ?thesis
    by (simp add: sub store_get_put)
qed

theorem C4_enqueue_puts_fresh_record_witness:
  "store_get id' (submissions (queueSubmission ''sub_1'' ''form_1'' None (JStr ''second'') 2 retried_thrice)) ''sub_1'' =
     Some \<lparr>id' = ''sub_1'', formId = ''form_1'', userId = None, data' = JStr ''second'', createdAt = 2,
           synced = False, syncAttempts = 0, lastSyncError = None\<rparr>
   \<and> ''sub_0'' \<noteq> ''sub_1''
   \<and> store_get id' (submissions (queueSubmission ''sub_1'' ''form_1'' None (JStr ''second'') 2 retried_thrice)) ''sub_0'' =
     store_get id' (submissions retried_thrice) ''sub_0''"
  using C4_enqueue_puts_fresh_record
    [of "''sub_1''" "''form_1''" None "JStr ''second''" 2 retried_thrice "''sub_0''"]
  by simp

subsection \<open>C8: draft round trip\<close>

text \<open>
  C8. Reading the draft of form \<open>F\<close> back after \<^verbatim>\<open>saveFormProgress(F, P)\<close> yields a draft whose
  data is \<open>P\<close>; a second save for the same form replaces the first; after a save exactly one
  draft is stored for \<open>F\<close>, and a store with at most one draft per form identifier stays so.
\<close>

theorem C8_draft_round_trip:
  "getFormProgress F (saveFormProgress F P now st) =
     Some \<lparr>p_formId = F, p_data = P, lastSaved = now\<rparr>
   \<and> getFormProgress F (saveFormProgress F P2 later (saveFormProgress F P now st)) =
     Some \<lparr>p_formId = F, p_data = P2, lastSaved = later\<rparr>
   \<and> length (filter (\<lambda>d. p_formId d = F) (formProgress (saveFormProgress F P now st))) = 1
   \<and> (distinct (map p_formId (formProgress st)) \<longrightarrow>
        distinct (map p_formId (formProgress (saveFormProgress F P now st))))"
proof -
  let ?v = "\<lparr>p_formId = F, p_data = P, lastSaved = now\<rparr>"
  have "length (filter (\<lambda>d. p_formId d = p_formId ?v) (store_put p_formId ?v (formProgress st))) = 1"
    by (rule count_store_put)
  then show ?thesis
    by (simp add: getFormProgress_def saveFormProgress_def store_get_put distinct_store_put)
qed

theorem C8_draft_round_trip_witness:
  "distinct (map p_formId (formProgress empty_state))
   \<and> getFormProgress ''form_1'' (saveFormProgress ''form_1'' (JStr ''a'') 1 empty_state) =
     Some \<lparr>p_formId = ''form_1'', p_data = JStr ''a'', lastSaved = 1\<rparr>
   \<and> distinct (map p_formId (formProgress (saveFormProgress ''form_1'' (JStr ''a'') 1 empty_state)))"
  using C8_draft_round_trip [of "''form_1''" "JStr ''a''" 1 empty_state "JStr ''b''" 2]
  by (simp add: empty_state_def)

subsection \<open>C3: the retry ceiling\<close>

text \<open>
  C3, as stated, fails in its last part: the "Sync Now" pass is \<^verbatim>\<open>syncPendingSubmissions\<close>
  with no argument telling it apart from an automatic pass, so it skips a submission at the
  ceiling like any other pass. With the exhausted submission \<open>sub_0\<close> as the only stored
  record and a remote store that accepts every write, \<^verbatim>\<open>handleSync\<close> issues no remote write
  and leaves the remote table empty; the same holds when the loop is handed the record
  directly. The record is not in the list \<^verbatim>\<open>getPendingSubmissions\<close> returns either.
\<close>

theorem C3_sync_now_skips_exhausted_counterexample:
  "getPendingSubmissions stuck = []
   \<and> writes (fst (fst (handleSync env_ok stuck))) = []
   \<and> remote (fst (fst (handleSync env_ok stuck))) = []
   \<and> snd (handleSync env_ok stuck) = [AlertNothingPending]
   \<and> writes (fst (syncItems env_ok [exhausted] (stuck, no_results))) = []
   \<and> remote (fst (syncItems env_ok [exhausted] (stuck, no_results))) = []
   \<and> success (snd (syncItems env_ok [exhausted] (stuck, no_results))) = 0"
  by (simp add: getPendingSubmissions_empty handleSync_def syncPendingSubmissions_def
      syncOne_exhausted exhausted_def stuck_def empty_state_def no_results_def)

text \<open>
  C3, amended: a submission whose attempt counter has reached 5 is skipped by every sync
  pass, automatic or started by "Sync Now" (both run the same loop over the fetched list):
  the pass issues no remote write for its identifier and leaves its stored record as it was,
  so the record is retained.
\<close>

theorem C3_exhausted_skipped_by_every_pass:
  assumes "distinct (map id' pending)"
    and "s \<in> set pending"
    and "5 \<le> syncAttempts s"
  shows "store_get id' (submissions (fst (syncItems e pending (st, res)))) (id' s)
           = store_get id' (submissions st) (id' s)
       \<and> id' s \<notin> set (drop (length (writes st)) (writes (fst (syncItems e pending (st, res)))))
       \<and> fst (handleSync e st) = syncItems e (getPendingSubmissions st) (st, no_results)"
proof -
  have kept: "store_get id' (submissions (fst (syncItems e pending (st, res)))) (id' s)
                = store_get id' (submissions st) (id' s)"
    using assms syncItems_exhausted_untouched [of pending s e "(st, res)"] by simp
  have "p = s" if "p \<in> set pending" and "id' p = id' s" for p
    using assms(1,2) that by (meson distinct_map inj_onD)
  then have "id' s \<notin> id' ` set (filter (\<lambda>s. syncAttempts s < 5) pending)"
    using assms(3) by auto
  then have nowrite: "id' s \<notin> set (drop (length (writes st)) (writes (fst (syncItems e pending (st, res)))))"
    by (simp add: syncItems_writes)
  from kept nowrite show ?thesis
    by (simp add: fst_handleSync syncPendingSubmissions_items)
qed

theorem C3_exhausted_skipped_by_every_pass_witness:
  "distinct (map id' [exhausted, sub_1])
   \<and> exhausted \<in> set [exhausted, sub_1]
   \<and> 5 \<le> syncAttempts exhausted
   \<and> store_get id' (submissions (fst (syncItems env_ok [exhausted, sub_1] (stuck, no_results)))) ''sub_0''
       = Some exhausted
   \<and> ''sub_0'' \<notin> set (writes (fst (syncItems env_ok [exhausted, sub_1] (stuck, no_results))))"
  using C3_exhausted_skipped_by_every_pass
    [where pending = "[exhausted, sub_1]" and s = exhausted and e = env_ok and st = stuck
       and res = no_results]
  by (simp add: exhausted_def sub_1_def stuck_def empty_state_def store_get_def)

subsection \<open>C6: one pass at a time\<close>

text \<open>
  C6, as stated, fails: the flag belongs to the listener, and the dashboard's "Sync Now"
  starts its pass without looking at it. After one trigger of the listener and one "Sync Now"
  two passes are in flight.
\<close>

theorem C6_manual_pass_overlaps_counterexample:
  "reachable (handleSync_enter (triggerSync_enter True idle))
   \<and> syncInProgress (handleSync_enter (triggerSync_enter True idle))
   \<and> listener_passes (handleSync_enter (triggerSync_enter True idle))
       + manual_passes (handleSync_enter (triggerSync_enter True idle)) = 2"
proof -
  have "reachable (handleSync_enter (triggerSync_enter True idle))"
    by (intro reachable.sync_now reachable.trigger reachable.start)
  then show ?thesis
    by (simp add: handleSync_enter_def triggerSync_enter_def idle_def)
qed

text \<open>
  C6, amended: at most one pass started by the listener's \<^verbatim>\<open>triggerSync\<close> is in flight at
  any time; a \<^verbatim>\<open>triggerSync\<close> call made while such a pass is draining changes nothing and
  starts no pass; and when the pass ends, whatever it returned or threw, the flag is cleared,
  so that the next trigger while online starts a new pass.
\<close>

theorem C6_listener_single_flight:
  assumes "reachable orc"
  shows "listener_passes orc \<le> 1
       \<and> (0 < listener_passes orc \<longrightarrow> triggerSync_enter onLine orc = orc)
       \<and> (0 < listener_passes orc \<longrightarrow>
            \<not> syncInProgress (fst (triggerSync_finally outcome orc))
            \<and> listener_passes (fst (triggerSync_finally outcome orc)) = 0
            \<and> syncInProgress (triggerSync_enter True (fst (triggerSync_finally outcome orc)))
            \<and> listener_passes (triggerSync_enter True (fst (triggerSync_finally outcome orc))) = 1)"
proof -
  have inv: "listener_passes orc = (if syncInProgress orc then 1 else 0)"
    using assms by (rule reachable_flag_counts)
  then have bound: "listener_passes orc \<le> 1" by simp
  have dropped: "triggerSync_enter onLine orc = orc" if "0 < listener_passes orc"
    using inv that by (simp add: triggerSync_enter_def split: if_splits)
  have reset: "\<not> syncInProgress (fst (triggerSync_finally outcome orc))
            \<and> listener_passes (fst (triggerSync_finally outcome orc)) = 0
            \<and> syncInProgress (triggerSync_enter True (fst (triggerSync_finally outcome orc)))
            \<and> listener_passes (triggerSync_enter True (fst (triggerSync_finally outcome orc))) = 1"
    if "0 < listener_passes orc"
    using inv that by (simp add: triggerSync_finally_def triggerSync_enter_def split: if_splits)
  from bound dropped reset show ?thesis by blast
qed

theorem C6_listener_single_flight_witness:
  "reachable (triggerSync_enter True idle)
   \<and> 0 < listener_passes (triggerSync_enter True idle)
   \<and> listener_passes (triggerSync_enter True idle) \<le> 1
   \<and> triggerSync_enter True (triggerSync_enter True idle) = triggerSync_enter True idle
   \<and> \<not> syncInProgress (fst (triggerSync_finally (Inr \<lparr>success = 0, failed = 2, errors = []\<rparr>)
          (triggerSync_enter True idle)))
   \<and> syncInProgress (triggerSync_enter True
        (fst (triggerSync_finally (Inr \<lparr>success = 0, failed = 2, errors = []\<rparr>)
          (triggerSync_enter True idle))))"
proof -
  have r: "reachable (triggerSync_enter True idle)"
    by (intro reachable.trigger reachable.start)
  have p: "0 < listener_passes (triggerSync_enter True idle)"
    by (simp add: triggerSync_enter_def idle_def)
  from C6_listener_single_flight
    [OF r, where onLine = True and outcome = "Inr \<lparr>success = 0, failed = 2, errors = []\<rparr>"] r p
  show ?thesis by blast
qed

subsection \<open>C1: a queued submission and the pass\<close>


subsection \<open>C5: a failing secondary target\<close>


subsection \<open>C7: recording a failure\<close>

text \<open>
  C7. The claim says that on a failed remote write the pass adds one to the item's attempt
  counter and stores the error message. With \<open>sub_1\<close> queued and a remote store that rejects
  every write with the message \<open>permission denied\<close>, \<^verbatim>\<open>syncPendingSubmissions\<close> leaves
  the record at 0 attempts with no error, because the fetch of the pass finds nothing (the
  lookup of C2). Handed the record directly, the loop does count the attempt, but the text
  it stores and reports is \<open>Unknown error\<close>: the value thrown is the plain \<^verbatim>\<open>error\<close>
  object of the client's reply, which is no \<^verbatim>\<open>Error\<close> instance.
\<close>

theorem C7_remote_failure_is_not_recorded:
  "submissions sub_1_queued = [sub_1]
   \<and> upsert_result env_rejects sub_1 = Some ''permission denied''
   \<and> syncPendingSubmissions env_rejects sub_1_queued = (sub_1_queued, no_results)
   \<and> map syncAttempts (submissions (fst (syncPendingSubmissions env_rejects sub_1_queued))) = [0]
   \<and> map lastSyncError (submissions (fst (syncPendingSubmissions env_rejects sub_1_queued))) = [None]
   \<and> map syncAttempts (submissions (fst (syncItems env_rejects [sub_1] (sub_1_queued, no_results)))) = [1]
   \<and> map lastSyncError (submissions (fst (syncItems env_rejects [sub_1] (sub_1_queued, no_results))))
       = [Some ''Unknown error'']
   \<and> errors (snd (syncItems env_rejects [sub_1] (sub_1_queued, no_results)))
       = [''Submission sub_1: Unknown error'']"
proof -
  have stored: "submissions sub_1_queued = [sub_1]"
    by (rule submissions_sub_1_queued)
  have rejected: "upsert_result env_rejects sub_1 = Some ''permission denied''"
    by (simp add: env_rejects_def)
  have noop: "syncPendingSubmissions env_rejects sub_1_queued = (sub_1_queued, no_results)"
    by (rule syncPendingSubmissions_fetches_nothing)
  have untouched: "map syncAttempts (submissions sub_1_queued) = [0]"
      "map lastSyncError (submissions sub_1_queued) = [None]"
    by (simp_all add: stored sub_1_def)
  have low: "syncAttempts sub_1 < 5"
    by (simp add: sub_1_def)
  have found: "store_get id' (submissions sub_1_queued) (id' sub_1) = Some sub_1"
    by (simp add: stored store_get_def)
  have loop: "submissions (fst (syncItems env_rejects [sub_1] (sub_1_queued, no_results)))
      = [sub_1\<lparr>syncAttempts := syncAttempts sub_1 + 1, lastSyncError := Some ''Unknown error''\<rparr>]"
    using low rejected found
    by (simp add: syncOne_submissions submissions_updateSubmissionSyncError stored
        store_put_def store_delete_def)
  have counted: "map syncAttempts (submissions (fst (syncItems env_rejects [sub_1] (sub_1_queued, no_results)))) = [1]"
      "map lastSyncError (submissions (fst (syncItems env_rejects [sub_1] (sub_1_queued, no_results))))
         = [Some ''Unknown error'']"
    unfolding loop by (simp_all add: sub_1_def)
  have reported: "errors (snd (syncItems env_rejects [sub_1] (sub_1_queued, no_results)))
       = [''Submission sub_1: Unknown error'']"
    using low rejected by (simp add: syncOne_results no_results_def sub_1_def)
  from stored rejected noop untouched counted reported show ?thesis
    by (simp add: noop)
qed

subsection \<open>C10: exhausted items in the summary\<close>


subsection \<open>C9: the draft after a submit\<close>

text \<open>
  C9. The claim says that after a successful submission no draft remains for the form. One
  field is filled in, which arms the autosave timer, and the form is submitted before the
  timer is due. \<^verbatim>\<open>handleSubmit\<close> queues (offline) or inserts (online) the submission and
  clears the draft, but it does not cancel the timer; when the timer fires before the
  component unmounts, \<^verbatim>\<open>saveFormProgress\<close> stores the submitted answers as the form's
  draft again.
\<close>

theorem C9_pending_autosave_writes_draft_back:
  "autosave_timer edited_page = Some [(''name'', JStr ''Ada'')]
   \<and> snd (submit_page False (Inserted ''row_1'') ''form_1'' None ''sub_1'' 1 (empty_state, edited_page))
       = AlertQueued
   \<and> getFormProgress ''form_1''
        (fst (fst (submit_page False (Inserted ''row_1'') ''form_1'' None ''sub_1'' 1 (empty_state, edited_page))))
       = None
   \<and> getFormProgress ''form_1''
        (fst (autosave_fires ''form_1'' 2
          (fst (submit_page False (Inserted ''row_1'') ''form_1'' None ''sub_1'' 1 (empty_state, edited_page)))))
       = Some \<lparr>p_formId = ''form_1'', p_data = JObj [(''name'', JStr ''Ada'')], lastSaved = 2\<rparr>
   \<and> snd (submit_page True (Inserted ''row_1'') ''form_1'' None ''sub_1'' 1 (empty_state, edited_page))
       = AlertSaved
   \<and> getFormProgress ''form_1''
        (fst (autosave_fires ''form_1'' 2
          (fst (submit_page True (Inserted ''row_1'') ''form_1'' None ''sub_1'' 1 (empty_state, edited_page)))))
       = Some \<lparr>p_formId = ''form_1'', p_data = JObj [(''name'', JStr ''Ada'')], lastSaved = 2\<rparr>"
proof -
  have armed: "autosave_timer edited_page = Some [(''name'', JStr ''Ada'')]"
    by (simp add: edited_page_def onChange_def autosave_effect_def opened_page_def)
  have held: "answers edited_page = [(''name'', JStr ''Ada'')]"
    by (simp add: edited_page_def onChange_def autosave_effect_def opened_page_def)
  have offline: "snd (submit_page False (Inserted ''row_1'') ''form_1'' None ''sub_1'' 1 (empty_state, edited_page))
       = AlertQueued"
    by (simp add: submit_page_def handleSubmit_def Let_def)
  have online: "snd (submit_page True (Inserted ''row_1'') ''form_1'' None ''sub_1'' 1 (empty_state, edited_page))
       = AlertSaved"
    by (simp add: submit_page_def handleSubmit_def Let_def)
  have cleared: "getFormProgress ''form_1''
        (fst (fst (submit_page False (Inserted ''row_1'') ''form_1'' None ''sub_1'' 1 (empty_state, edited_page))))
       = None"
    by (simp add: submit_page_def handleSubmit_def Let_def getFormProgress_def
        clearFormProgress_def store_get_delete)
  have rewritten: "getFormProgress ''form_1''
        (fst (autosave_fires ''form_1'' now
          (fst (submit_page isOnline (Inserted ''row_1'') ''form_1'' None ''sub_1'' 1 (empty_state, edited_page)))))
       = Some \<lparr>p_formId = ''form_1'', p_data = JObj [(''name'', JStr ''Ada'')], lastSaved = now\<rparr>"
    for isOnline now
    by (simp add: autosave_fires_def submit_page_def Let_def armed getFormProgress_def
        saveFormProgress_def store_get_put)
  from armed offline cleared rewritten online show ?thesis
    by blast
qed

end
